theory Spec2Isabelle
  imports Complex_Main "HOL-Library.AList"
begin

section \<open>Data model\<close>

text \<open>
  The server keeps its state in three JSON files (\<open>products.json\<close>,
  \<open>categories.json\<close>, \<open>sales.json\<close>), each holding an array of objects.
  A JavaScript number that holds an amount of money is modelled as an exact rational,
  one that holds an identifier, a quantity or a stock level as an integer, and an
  ISO timestamp string as the instant it denotes (milliseconds since the epoch).
\<close>

type_synonym money = rat
type_synonym instant = int

record category =
  category_id :: int
  category_name :: string
  category_description :: string
  category_status :: string
  category_createdAt :: instant

record product =
  product_id :: int
  product_name :: string
  product_sku :: string
  categoryId :: int
  price :: money
  stock :: int
  reorderPoint :: int
  product_description :: string
  lastUpdated :: instant

text \<open>One element of \<open>req.body.items\<close>.\<close>

record cart_line =
  line_productId :: int
  line_quantity :: int

text \<open>
  One element of \<open>saleItems\<close> on the server; the interface \<open>CartItem\<close> of the
  billing page has the same six fields.
\<close>

record sale_item =
  item_productId :: int
  item_productName :: string
  item_sku :: string
  item_price :: money
  item_quantity :: int
  item_total :: money

record sale =
  sale_id :: int
  sale_items :: "sale_item list"
  subtotal :: money
  discount :: money
  tax :: money
  sale_total :: money
  paymentMethod :: string
  customerName :: string
  cashierId :: int
  cashierName :: string
  createdAt :: instant

text \<open>The body of \<open>POST /api/sales\<close>; an optional field that is absent is \<open>None\<close>.\<close>

record sale_request =
  req_items :: "cart_line list"
  req_paymentMethod :: string
  req_customerName :: "string option"
  req_discount :: "money option"
  req_tax :: "money option"

text \<open>\<open>req.user\<close>, as decoded from the token.\<close>

record user =
  user_id :: int
  username :: string

text \<open>
  The contents of the data directory. Each file is represented by the array its text
  parses to, and by the empty array when the text does not parse: every read of the
  server goes through \<open>readDataFile\<close>, which returns the empty array for such a text.
\<close>

record disk =
  products_json :: "product list"
  categories_json :: "category list"
  sales_json :: "sale list"

text \<open>
  What a call of \<open>fs.writeFile\<close> that throws leaves in the file. The file is written in
  place, so this depends on when the failure comes: before the file is opened it is left
  as it was; after that it holds an incomplete text, which does not parse; after the last
  byte it holds the whole new text.
\<close>

datatype residue = Untouched | Truncated | Complete

datatype write_outcome = Write_ok | Write_fails residue

text \<open>
  What is outside the program and decides the course of one request: whether each read
  succeeds, how each write ends, and the largest number of arguments the engine accepts
  in one call.
\<close>

record environment =
  read_products_ok :: bool
  read_categories_ok :: bool
  read_sales_ok :: bool
  write_products :: write_outcome
  write_sales :: write_outcome
  max_arguments :: nat

text \<open>
  The \<open>message\<close> of a 400 response of the sale route. The two template strings
  interpolate one value each, which is what the constructor carries.
\<close>

datatype message =
    Product_not_found int
  | Insufficient_stock_for string

datatype response =
    Created sale
  | Validation_errors
  | Bad_request message
  | Server_error


section \<open>File access\<close>

text \<open>
  \<open>readDataFile\<close> catches every error of reading and parsing and returns the empty
  array; its first argument says whether the read succeeds.
\<close>

definition readDataFile :: "bool \<Rightarrow> 'a list \<Rightarrow> 'a list" where
  "readDataFile ok content = (if ok then content else [])"

text \<open>The array a file holds after a write of \<open>new\<close> over \<open>old\<close> has thrown.\<close>

definition left_by :: "residue \<Rightarrow> 'a list \<Rightarrow> 'a list \<Rightarrow> 'a list" where
  "left_by r old new = (case r of Untouched \<Rightarrow> old | Truncated \<Rightarrow> [] | Complete \<Rightarrow> new)"

text \<open>
  \<open>writeDataFile\<close> logs and rethrows. The result says whether the call returned (\<open>False\<close>
  stands for the exception) and what the file holds afterwards.
\<close>

definition writeDataFile :: "write_outcome \<Rightarrow> 'a list \<Rightarrow> 'a list \<Rightarrow> bool \<times> 'a list" where
  "writeDataFile outcome old new =
     (case outcome of
        Write_ok \<Rightarrow> (True, new)
      | Write_fails r \<Rightarrow> (False, left_by r old new))"


section \<open>Committing a sale: \<open>POST /api/sales\<close>\<close>

text \<open>
  The validator chain. \<open>isArray\<close> and \<open>isInt\<close> hold by typing; what remains is the
  lower bound on each quantity, the non-empty payment method and the lower bound on the
  optional discount and tax.
\<close>

definition valid_request :: "sale_request \<Rightarrow> bool" where
  "valid_request req \<longleftrightarrow>
     list_all (\<lambda>item. 1 \<le> line_quantity item) (req_items req) \<and>
     req_paymentMethod req \<noteq> [] \<and>
     (case req_discount req of None \<Rightarrow> True | Some d \<Rightarrow> 0 \<le> d) \<and>
     (case req_tax req of None \<Rightarrow> True | Some t \<Rightarrow> 0 \<le> t)"

text \<open>
  The first loop over \<open>items\<close>: it looks each product up, compares that line's quantity
  with the product's stock, and accumulates \<open>subtotal\<close> and \<open>saleItems\<close>. An early
  \<open>return res.status(400)\<close> is \<open>Inl\<close>.
\<close>

fun validate_items ::
  "product list \<Rightarrow> cart_line list \<Rightarrow> money \<Rightarrow> sale_item list \<Rightarrow> message + (money \<times> sale_item list)"
where
  "validate_items products [] subtot saleItems = Inr (subtot, saleItems)"
| "validate_items products (item # rest) subtot saleItems =
     (case find (\<lambda>p. product_id p = line_productId item) products of
        None \<Rightarrow> Inl (Product_not_found (line_productId item))
      | Some product \<Rightarrow>
          if stock product < line_quantity item
          then Inl (Insufficient_stock_for (product_name product))
          else
            let itemTotal = price product * of_int (line_quantity item)
            in validate_items products rest (subtot + itemTotal)
                 (saleItems @
                   [\<lparr>item_productId = product_id product,
                     item_productName = product_name product,
                     item_sku = product_sku product,
                     item_price = price product,
                     item_quantity = line_quantity item,
                     item_total = itemTotal\<rparr>]))"

text \<open>\<open>Array.prototype.findIndex\<close>; \<open>None\<close> is the result \<open>-1\<close>.\<close>

fun findIndex :: "('a \<Rightarrow> bool) \<Rightarrow> 'a list \<Rightarrow> nat option" where
  "findIndex P [] = None"
| "findIndex P (x # xs) =
     (if P x then Some 0 else map_option Suc (findIndex P xs))"

text \<open>
  The second loop over \<open>items\<close>: it subtracts each line's quantity from the product at
  the index found. At index \<open>-1\<close> the assignment to a field of \<open>undefined\<close> throws,
  which is \<open>None\<close>.
\<close>

fun update_stock :: "instant \<Rightarrow> product list \<Rightarrow> cart_line list \<Rightarrow> product list option" where
  "update_stock now products [] = Some products"
| "update_stock now products (item # rest) =
     (case findIndex (\<lambda>p. product_id p = line_productId item) products of
        None \<Rightarrow> None
      | Some productIndex \<Rightarrow>
          update_stock now
            (products[productIndex :=
               (products ! productIndex)
                 \<lparr>stock := stock (products ! productIndex) - line_quantity item,
                  lastUpdated := now\<rparr>])
            rest)"

text \<open>
  \<open>Math.max(...sales.map(s => s.id), 0) + 1\<close>. The spread passes one argument for each
  sale and one for the 0; with more arguments than the engine accepts the call throws a
  \<open>RangeError\<close>, which is \<open>None\<close>.
\<close>

definition next_sale_id :: "nat \<Rightarrow> sale list \<Rightarrow> int option" where
  "next_sale_id limit sales =
     (if limit < length sales + 1 then None
      else Some (fold max (map sale_id sales) 0 + 1))"

text \<open>
  The handler. It returns the response and the data directory after the request.
  Every exception inside the \<open>try\<close> block ends in the 500 response: the \<open>RangeError\<close>
  of the identifier comes before anything is changed, the exception of the first write
  before the second write is tried. The clock is read
  once for \<open>createdAt\<close> and once for each \<open>lastUpdated\<close>; the model takes the one
  instant \<open>now\<close> for all of these readings.
\<close>

definition post_sales ::
  "user \<Rightarrow> instant \<Rightarrow> environment \<Rightarrow> sale_request \<Rightarrow> disk \<Rightarrow> response \<times> disk"
where
  "post_sales usr now io req d =
     (if \<not> valid_request req then (Validation_errors, d)
      else
        let products = readDataFile (read_products_ok io) (products_json d);
            sales = readDataFile (read_sales_ok io) (sales_json d);
            disc = (case req_discount req of None \<Rightarrow> 0 | Some x \<Rightarrow> x);
            tx = (case req_tax req of None \<Rightarrow> 0 | Some x \<Rightarrow> x)
        in
          (case validate_items products (req_items req) 0 [] of
             Inl msg \<Rightarrow> (Bad_request msg, d)
           | Inr (subtot, saleItems) \<Rightarrow>
               (case next_sale_id (max_arguments io) sales of
                  None \<Rightarrow> (Server_error, d)
                | Some new_id \<Rightarrow>
                    (let total = subtot - disc + tx;
                         newSale =
                           \<lparr>sale_id = new_id,
                            sale_items = saleItems,
                            subtotal = subtot,
                            discount = disc,
                            tax = tx,
                            sale_total = total,
                            paymentMethod = req_paymentMethod req,
                            customerName =
                              (case req_customerName req of
                                 None \<Rightarrow> ''Walk-in Customer''
                               | Some n \<Rightarrow> if n = [] then ''Walk-in Customer'' else n),
                            cashierId = user_id usr,
                            cashierName = username usr,
                            createdAt = now\<rparr>
                     in
                       (case update_stock now products (req_items req) of
                          None \<Rightarrow> (Server_error, d)
                        | Some products' \<Rightarrow>
                            (case writeDataFile (write_products io) (products_json d) products' of
                               (False, left) \<Rightarrow> (Server_error, d\<lparr>products_json := left\<rparr>)
                             | (True, written_products) \<Rightarrow>
                                 (let d1 = d\<lparr>products_json := written_products\<rparr>
                                  in
                                    (case writeDataFile (write_sales io) (sales_json d)
                                            (sales @ [newSale]) of
                                       (False, left) \<Rightarrow>
                                         (Server_error, d1\<lparr>sales_json := left\<rparr>)
                                     | (True, written_sales) \<Rightarrow>
                                         (Created newSale,
                                          d1\<lparr>sales_json := written_sales\<rparr>)))))))))"


section \<open>The billing page: \<open>Billing.tsx\<close>\<close>

text \<open>
  The cart is a list of items with the fields of \<open>sale_item\<close>. Where the page shows a
  toast and returns, the cart is returned as it was.
\<close>

definition addToCart :: "product \<Rightarrow> sale_item list \<Rightarrow> sale_item list" where
  "addToCart product cart =
     (case find (\<lambda>item. item_productId item = product_id product) cart of
        Some existingItem \<Rightarrow>
          if stock product \<le> item_quantity existingItem then cart
          else
            map (\<lambda>item.
                   if item_productId item = product_id product
                   then item\<lparr>item_quantity := item_quantity item + 1,
                             item_total := of_int (item_quantity item + 1) * item_price item\<rparr>
                   else item)
              cart
      | None \<Rightarrow>
          if stock product \<le> 0 then cart
          else
            cart @
              [\<lparr>item_productId = product_id product,
                item_productName = product_name product,
                item_sku = product_sku product,
                item_price = price product,
                item_quantity = 1,
                item_total = price product\<rparr>])"

text \<open>\<open>cart.reduce((sum, item) => sum + item.total, 0)\<close>\<close>

definition cart_subtotal :: "sale_item list \<Rightarrow> money" where
  "cart_subtotal cart = foldl (\<lambda>sum item. sum + item_total item) 0 cart"

definition discountAmount :: "sale_item list \<Rightarrow> rat \<Rightarrow> money" where
  "discountAmount cart discountPercent = (cart_subtotal cart * discountPercent) / 100"

definition taxableAmount :: "sale_item list \<Rightarrow> rat \<Rightarrow> money" where
  "taxableAmount cart discountPercent =
     cart_subtotal cart - discountAmount cart discountPercent"

definition taxAmount :: "sale_item list \<Rightarrow> rat \<Rightarrow> rat \<Rightarrow> money" where
  "taxAmount cart discountPercent taxPercent =
     (taxableAmount cart discountPercent * taxPercent) / 100"

definition billing_total :: "sale_item list \<Rightarrow> rat \<Rightarrow> rat \<Rightarrow> money" where
  "billing_total cart discountPercent taxPercent =
     taxableAmount cart discountPercent + taxAmount cart discountPercent taxPercent"

record sale_form =
  form_customerName :: string
  form_paymentMethod :: string
  discountPercent :: rat
  taxPercent :: rat

text \<open>
  \<open>onSubmit\<close> builds the request body sent to \<open>POST /api/sales\<close>; with an empty cart it
  shows \<open>Cart is empty\<close> and sends nothing, which is \<open>None\<close>.
\<close>

definition onSubmit :: "sale_form \<Rightarrow> sale_item list \<Rightarrow> sale_request option" where
  "onSubmit form_data cart =
     (if length cart = 0 then None
      else
        Some
          \<lparr>req_items =
             map (\<lambda>item. \<lparr>line_productId = item_productId item,
                           line_quantity = item_quantity item\<rparr>) cart,
           req_paymentMethod = form_paymentMethod form_data,
           req_customerName =
             Some (if form_customerName form_data = [] then ''Walk-in Customer''
                   else form_customerName form_data),
           req_discount = Some (discountAmount cart (discountPercent form_data)),
           req_tax =
             Some (taxAmount cart (discountPercent form_data) (taxPercent form_data))\<rparr>)"


section \<open>Aggregating sales: \<open>GET /api/analytics/sales\<close>\<close>

text \<open>
  The value of \<open>new Date(string)\<close>: an instant, or the invalid date, whose time value is
  \<open>NaN\<close> and makes every comparison false.
\<close>

datatype jsdate = Invalid_Date | Time instant

fun date_ge :: "jsdate \<Rightarrow> jsdate \<Rightarrow> bool" where
  "date_ge (Time a) (Time b) = (b \<le> a)"
| "date_ge _ _ = False"

fun date_le :: "jsdate \<Rightarrow> jsdate \<Rightarrow> bool" where
  "date_le (Time a) (Time b) = (a \<le> b)"
| "date_le _ _ = False"

text \<open>
  A query parameter that is absent or the empty string is falsy, which is \<open>None\<close>;
  otherwise it is the date its string parses to. \<open>createdAt\<close> was written by
  \<open>toISOString\<close>, so it parses to its instant.
\<close>

definition filter_sales :: "jsdate option \<Rightarrow> jsdate option \<Rightarrow> sale list \<Rightarrow> sale list" where
  "filter_sales startDate endDate sales =
     (case startDate of
        None \<Rightarrow> sales
      | Some s \<Rightarrow>
          (case endDate of
             None \<Rightarrow> sales
           | Some e \<Rightarrow>
               filter (\<lambda>sale. date_ge (Time (createdAt sale)) s \<and>
                               date_le (Time (createdAt sale)) e) sales))"

text \<open>\<open>filteredSales.reduce((sum, sale) => sum + sale.total, 0)\<close>\<close>

definition total_sales :: "sale list \<Rightarrow> money" where
  "total_sales filteredSales = foldl (\<lambda>sum sale. sum + sale_total sale) 0 filteredSales"

text \<open>
  The body of the inner \<open>forEach\<close> that fills \<open>salesByCategory\<close>, an object keyed by
  category name. \<open>(x || 0)\<close> reads a missing key as 0. The object is modelled as a map
  from names to amounts, which is what it is for every category name that is not the
  name of a property of \<open>Object.prototype\<close>.
\<close>

definition add_category_sale ::
  "product list \<Rightarrow> category list \<Rightarrow> (string \<rightharpoonup> money) \<Rightarrow> sale_item \<Rightarrow> (string \<rightharpoonup> money)"
where
  "add_category_sale products categories acc item =
     (case find (\<lambda>p. product_id p = item_productId item) products of
        None \<Rightarrow> acc
      | Some product \<Rightarrow>
          (case find (\<lambda>c. category_id c = categoryId product) categories of
             None \<Rightarrow> acc
           | Some category \<Rightarrow>
               acc(category_name category \<mapsto>
                 (case acc (category_name category) of None \<Rightarrow> 0 | Some v \<Rightarrow> v)
                   + item_total item)))"

definition sales_by_category ::
  "product list \<Rightarrow> category list \<Rightarrow> sale list \<Rightarrow> (string \<rightharpoonup> money)"
where
  "sales_by_category products categories filteredSales =
     foldl (\<lambda>acc sale. foldl (add_category_sale products categories) acc (sale_items sale))
       Map.empty filteredSales"

text \<open>
  \<open>productSales\<close> is an object keyed by product id. It is kept as an association list
  in the order in which the keys were created: assigning to an existing key keeps its
  place, a new key goes to the end.
\<close>

record product_sales =
  ps_productName :: string
  ps_quantity :: int
  ps_total :: money

definition add_product_sale ::
  "(int \<times> product_sales) list \<Rightarrow> sale_item \<Rightarrow> (int \<times> product_sales) list"
where
  "add_product_sale acc item =
     (case map_of acc (item_productId item) of
        Some entry \<Rightarrow>
          AList.update (item_productId item)
            (entry\<lparr>ps_quantity := ps_quantity entry + item_quantity item,
                   ps_total := ps_total entry + item_total item\<rparr>)
            acc
      | None \<Rightarrow>
          AList.update (item_productId item)
            \<lparr>ps_productName = item_productName item,
             ps_quantity = item_quantity item,
             ps_total = item_total item\<rparr>
            acc)"

definition product_sales_of :: "sale list \<Rightarrow> (int \<times> product_sales) list" where
  "product_sales_of filteredSales =
     foldl (\<lambda>acc sale. foldl add_product_sale acc (sale_items sale)) [] filteredSales"

text \<open>
  \<open>Object.entries\<close> lists the keys that are array indices (integers from 0 to
  \<open>2^32 - 2\<close>) in ascending order, and then the other keys in the order of their creation.
\<close>

definition is_array_index :: "int \<Rightarrow> bool" where
  "is_array_index k \<longleftrightarrow> 0 \<le> k \<and> k < 2 ^ 32 - 1"

definition object_entries :: "(int \<times> 'v) list \<Rightarrow> (int \<times> 'v) list" where
  "object_entries obj =
     sort_key fst (filter (\<lambda>kv. is_array_index (fst kv)) obj) @
     filter (\<lambda>kv. \<not> is_array_index (fst kv)) obj"

record top_product =
  tp_productId :: int
  tp_productName :: string
  tp_quantity :: int
  tp_total :: money

text \<open>
  \<open>Object.entries(productSales).sort(([, a], [, b]) => b.quantity - a.quantity)
  .slice(0, 10).map(...)\<close>. \<open>Array.prototype.sort\<close> is stable, as is \<open>sort_key\<close>.
\<close>

definition top_products :: "sale list \<Rightarrow> top_product list" where
  "top_products filteredSales =
     map (\<lambda>(productId, entry).
            \<lparr>tp_productId = productId,
             tp_productName = ps_productName entry,
             tp_quantity = ps_quantity entry,
             tp_total = ps_total entry\<rparr>)
       (take 10
         (sort_key (\<lambda>(productId, entry). - ps_quantity entry)
           (object_entries (product_sales_of filteredSales))))"

record analytics =
  totalSales :: money
  totalTransactions :: nat
  salesByCategory :: "string \<rightharpoonup> money"
  topProducts :: "top_product list"

text \<open>
  The handler. No statement of its \<open>try\<close> block throws on data of these types, so its
  only response is the 200 response with the four results.
\<close>

definition get_analytics_sales ::
  "environment \<Rightarrow> jsdate option \<Rightarrow> jsdate option \<Rightarrow> disk \<Rightarrow> analytics"
where
  "get_analytics_sales io startDate endDate d =
     (let sales = readDataFile (read_sales_ok io) (sales_json d);
          products = readDataFile (read_products_ok io) (products_json d);
          categories = readDataFile (read_categories_ok io) (categories_json d);
          filteredSales = filter_sales startDate endDate sales
      in \<lparr>totalSales = total_sales filteredSales,
          totalTransactions = length filteredSales,
          salesByCategory = sales_by_category products categories filteredSales,
          topProducts = top_products filteredSales\<rparr>)"


section \<open>Auxiliary notions\<close>

text \<open>
  The line items of a list of sales in the order the two nested \<open>forEach\<close> loops visit
  them, and the quantity and revenue they hold for one product id.
\<close>

definition all_items :: "sale list \<Rightarrow> sale_item list" where
  "all_items fs = concat (map sale_items fs)"

definition quantity_of :: "int \<Rightarrow> sale_item list \<Rightarrow> int" where
  "quantity_of k its = sum_list (map item_quantity (filter (\<lambda>i. item_productId i = k) its))"

definition total_of :: "int \<Rightarrow> sale_item list \<Rightarrow> money" where
  "total_of k its = sum_list (map item_total (filter (\<lambda>i. item_productId i = k) its))"

text \<open>The quantity and revenue an accumulator holds for a key, 0 for a missing key.\<close>

definition acc_quantity :: "(int \<times> product_sales) list \<Rightarrow> int \<Rightarrow> int" where
  "acc_quantity acc k = (case map_of acc k of None \<Rightarrow> 0 | Some e \<Rightarrow> ps_quantity e)"

definition acc_total :: "(int \<times> product_sales) list \<Rightarrow> int \<Rightarrow> money" where
  "acc_total acc k = (case map_of acc k of None \<Rightarrow> 0 | Some e \<Rightarrow> ps_total e)"


section \<open>Fixtures\<close>

text \<open>All five file operations succeed, and a call may have 100000 arguments.\<close>

definition io_ok :: environment where
  "io_ok =
     \<lparr>read_products_ok = True, read_categories_ok = True, read_sales_ok = True,
      write_products = Write_ok, write_sales = Write_ok, max_arguments = 100000\<rparr>"

text \<open>A catalogue entry with a given id, name, price and stock.\<close>

definition mk_product :: "int \<Rightarrow> string \<Rightarrow> money \<Rightarrow> int \<Rightarrow> product" where
  "mk_product i n pr st =
     \<lparr>product_id = i, product_name = n, product_sku = ''SKU'', categoryId = 1,
      price = pr, stock = st, reorderPoint = 0, product_description = [],
      lastUpdated = 0\<rparr>"

definition mk_line :: "int \<Rightarrow> int \<Rightarrow> cart_line" where
  "mk_line i q = \<lparr>line_productId = i, line_quantity = q\<rparr>"

definition mk_request :: "cart_line list \<Rightarrow> money option \<Rightarrow> money option \<Rightarrow> sale_request" where
  "mk_request ls disc tx =
     \<lparr>req_items = ls, req_paymentMethod = ''cash'', req_customerName = None,
      req_discount = disc, req_tax = tx\<rparr>"

definition mk_disk :: "product list \<Rightarrow> sale list \<Rightarrow> disk" where
  "mk_disk ps ss = \<lparr>products_json = ps, categories_json = [], sales_json = ss\<rparr>"

definition cashier :: user where
  "cashier = \<lparr>user_id = 2, username = ''cashier''\<rparr>"

text \<open>A line item and a sale of the history, with the fields the aggregation reads.\<close>

definition mk_item :: "int \<Rightarrow> string \<Rightarrow> int \<Rightarrow> money \<Rightarrow> sale_item" where
  "mk_item i n q t =
     \<lparr>item_productId = i, item_productName = n, item_sku = ''SKU'',
      item_price = t / of_int q, item_quantity = q, item_total = t\<rparr>"

definition mk_sale :: "int \<Rightarrow> instant \<Rightarrow> sale_item list \<Rightarrow> money \<Rightarrow> sale" where
  "mk_sale i t its tot =
     \<lparr>sale_id = i, sale_items = its, subtotal = tot, discount = 0, tax = 0,
      sale_total = tot, paymentMethod = ''cash'', customerName = ''Walk-in Customer'',
      cashierId = 2, cashierName = ''cashier'', createdAt = t\<rparr>"

text \<open>Whether a response is the 201 response.\<close>

definition accepted :: "response \<Rightarrow> bool" where
  "accepted r = (case r of Created s \<Rightarrow> True | _ \<Rightarrow> False)"


section \<open>Properties of the two loops of the commit\<close>

lemma findIndex_Some:
  "findIndex P xs = Some i \<Longrightarrow> i < length xs \<and> P (xs ! i) \<and> find P xs = Some (xs ! i)"
  by (induction xs arbitrary: i) (auto split: if_splits)

lemma findIndex_None: "findIndex P xs = None \<longleftrightarrow> find P xs = None"
  by (induction xs) auto

lemma find_Some_findIndex:
  "find P xs = Some x \<Longrightarrow> \<exists>i. findIndex P xs = Some i \<and> i < length xs \<and> xs ! i = x"
  by (induction xs) (auto split: if_splits)

lemma validate_items_Inr_found:
  "validate_items ps items st acc = Inr r \<Longrightarrow> item \<in> set items \<Longrightarrow>
     \<exists>p. find (\<lambda>p. product_id p = line_productId item) ps = Some p \<and> line_quantity item \<le> stock p"
  by (induction items arbitrary: st acc) (auto simp: Let_def split: option.splits if_splits)

lemma update_stock_ids:
  "update_stock now ps items = Some ps' \<Longrightarrow> map product_id ps' = map product_id ps"
proof (induction items arbitrary: ps)
  case Nil
  then show ?case by simp
next
  case (Cons item rest)
  then show ?case
    by (auto split: option.splits dest!: findIndex_Some simp: map_update list_update_same_conv)
qed

lemma find_None_ids: "find (\<lambda>p. f p = k) ps = None \<longleftrightarrow> k \<notin> set (map f ps)"
  by (induction ps) auto

lemma update_stock_total:
  "\<forall>item \<in> set items. line_productId item \<in> set (map product_id ps) \<Longrightarrow>
     \<exists>ps'. update_stock now ps items = Some ps'"
proof (induction items arbitrary: ps)
  case Nil
  then show ?case by simp
next
  case (Cons item rest)
  from Cons.prems have "line_productId item \<in> set (map product_id ps)" by simp
  then obtain i where i: "findIndex (\<lambda>p. product_id p = line_productId item) ps = Some i"
    using findIndex_None [of "\<lambda>p. product_id p = line_productId item" ps] find_None_ids [of product_id "line_productId item" ps]
    by (cases "findIndex (\<lambda>p. product_id p = line_productId item) ps") auto
  let ?ps1 = "ps[i := (ps ! i)\<lparr>stock := stock (ps ! i) - line_quantity item, lastUpdated := now\<rparr>]"
  have "map product_id ?ps1 = map product_id ps"
    using findIndex_Some [OF i] by (simp add: map_update list_update_same_conv)
  with Cons.prems have "\<forall>item \<in> set rest. line_productId item \<in> set (map product_id ?ps1)"
    by simp
  from Cons.IH [OF this] i show ?case by simp
qed

lemma validate_items_update_stock:
  assumes "validate_items ps items st acc = Inr r"
  shows "\<exists>ps'. update_stock now ps items = Some ps'"
proof (rule update_stock_total, rule ballI)
  fix item assume "item \<in> set items"
  from validate_items_Inr_found [OF assms this]
  show "line_productId item \<in> set (map product_id ps)"
    using find_None_ids [of product_id "line_productId item" ps] by auto
qed

lemma fold_max_Max: "fold max xs (a::int) = Max (insert a (set xs))"
  by (metis Max.set_eq_fold list.simps(15))

lemma next_sale_id_Max:
  "next_sale_id limit sales = Some i \<Longrightarrow> i = Max (insert 0 (sale_id ` set sales)) + 1"
  by (simp add: next_sale_id_def fold_max_Max split: if_splits)

lemma post_sales_Created:
  assumes "post_sales usr now io req d = (Created s, d')"
  shows "valid_request req \<and> write_products io = Write_ok \<and> write_sales io = Write_ok \<and>
     (\<exists>st its ps'.
        validate_items (readDataFile (read_products_ok io) (products_json d)) (req_items req) 0 [] = Inr (st, its) \<and>
        update_stock now (readDataFile (read_products_ok io) (products_json d)) (req_items req) = Some ps' \<and>
        next_sale_id (max_arguments io) (readDataFile (read_sales_ok io) (sales_json d)) = Some (sale_id s) \<and>
        sale_items s = its \<and> subtotal s = st \<and>
        discount s = (case req_discount req of None \<Rightarrow> 0 | Some x \<Rightarrow> x) \<and>
        tax s = (case req_tax req of None \<Rightarrow> 0 | Some x \<Rightarrow> x) \<and>
        sale_total s = st - discount s + tax s \<and>
        createdAt s = now \<and>
        d' = d\<lparr>products_json := ps', sales_json := readDataFile (read_sales_ok io) (sales_json d) @ [s]\<rparr>)"
  using assms
  by (auto simp: post_sales_def Let_def writeDataFile_def
      split: if_splits sum.splits option.splits prod.splits write_outcome.splits bool.splits)


lemmas fixture_defs =
  io_ok_def mk_product_def mk_line_def mk_request_def mk_disk_def cashier_def
  mk_item_def mk_sale_def

lemmas handler_defs =
  post_sales_def valid_request_def readDataFile_def writeDataFile_def left_by_def
  next_sale_id_def Let_def

lemma post_sales_Created_sale:
  assumes "post_sales usr now io req d = (Created s, d')"
  shows "next_sale_id (max_arguments io) (readDataFile (read_sales_ok io) (sales_json d)) =
      Some (sale_id s)"
    and "discount s = (case req_discount req of None \<Rightarrow> 0 | Some x \<Rightarrow> x)"
    and "tax s = (case req_tax req of None \<Rightarrow> 0 | Some x \<Rightarrow> x)"
    and "sale_total s = subtotal s - discount s + tax s"
    and "createdAt s = now"
    and "sales_json d' = readDataFile (read_sales_ok io) (sales_json d) @ [s]"
  using post_sales_Created [OF assms] by (elim conjE exE, simp)+


lemma find_list_update_other:
  assumes "i < length ps" and "\<not> P (ps ! i)" and "\<not> P x"
  shows "find P (ps[i := x]) = find P ps"
  using assms
proof (induction ps arbitrary: i)
  case Nil
  then show ?case by simp
next
  case (Cons p ps)
  then show ?case by (cases i) simp_all
qed

lemma validate_items_cong:
  assumes "\<forall>item \<in> set items.
     find (\<lambda>p. product_id p = line_productId item) ps1 =
     find (\<lambda>p. product_id p = line_productId item) ps"
  shows "validate_items ps1 items st acc = validate_items ps items st acc"
  using assms by (induction items arbitrary: st acc) (simp_all add: Let_def split: option.splits)

lemma update_stock_distinct_nonneg:
  assumes "validate_items ps items st acc = Inr r"
    and "distinct (map line_productId items)"
    and "\<forall>p \<in> set ps. 0 \<le> stock p"
    and "update_stock now ps items = Some ps'"
  shows "\<forall>p \<in> set ps'. 0 \<le> stock p"
  using assms
proof (induction items arbitrary: ps st acc r)
  case Nil
  then show ?case by simp
next
  case (Cons item rest)
  let ?P = "\<lambda>p. product_id p = line_productId item"
  from Cons.prems(1) obtain p where p: "find ?P ps = Some p"
    and enough: "line_quantity item \<le> stock p"
    and rest: "\<exists>r'. validate_items ps rest
        (st + price p * of_int (line_quantity item))
        (acc @ [\<lparr>item_productId = product_id p, item_productName = product_name p,
                 item_sku = product_sku p, item_price = price p,
                 item_quantity = line_quantity item,
                 item_total = price p * of_int (line_quantity item)\<rparr>]) = Inr r'"
    by (auto simp: Let_def split: option.splits if_splits)
  from find_Some_findIndex [OF p] obtain i where i: "findIndex ?P ps = Some i"
    and il: "i < length ps" and pi: "ps ! i = p" by blast
  let ?p' = "p\<lparr>stock := stock p - line_quantity item, lastUpdated := now\<rparr>"
  let ?ps1 = "ps[i := ?p']"
  from Cons.prems(4) i pi have upd: "update_stock now ?ps1 rest = Some ps'" by simp
  have Pp: "?P p" using findIndex_Some [OF i] pi by simp
  have same: "\<forall>l \<in> set rest.
      find (\<lambda>q. product_id q = line_productId l) ?ps1 =
      find (\<lambda>q. product_id q = line_productId l) ps"
  proof
    fix l assume l: "l \<in> set rest"
    with Cons.prems(2) have ne: "line_productId l \<noteq> line_productId item"
      by (auto simp: image_iff)
    show "find (\<lambda>q. product_id q = line_productId l) ?ps1 =
        find (\<lambda>q. product_id q = line_productId l) ps"
      using il pi Pp ne by (intro find_list_update_other) simp_all
  qed
  from rest obtain r' where "validate_items ps rest
        (st + price p * of_int (line_quantity item))
        (acc @ [\<lparr>item_productId = product_id p, item_productName = product_name p,
                 item_sku = product_sku p, item_price = price p,
                 item_quantity = line_quantity item,
                 item_total = price p * of_int (line_quantity item)\<rparr>]) = Inr r'" ..
  then have v1: "validate_items ?ps1 rest
        (st + price p * of_int (line_quantity item))
        (acc @ [\<lparr>item_productId = product_id p, item_productName = product_name p,
                 item_sku = product_sku p, item_price = price p,
                 item_quantity = line_quantity item,
                 item_total = price p * of_int (line_quantity item)\<rparr>]) = Inr r'"
    by (simp only: validate_items_cong [OF same])
  have nn: "\<forall>q \<in> set ?ps1. 0 \<le> stock q"
  proof
    fix q assume "q \<in> set ?ps1"
    then have "q = ?p' \<or> q \<in> set ps"
      using set_update_subset_insert [of ps i ?p'] by auto
    with enough Cons.prems(3) show "0 \<le> stock q" by auto
  qed
  from Cons.prems(2) have d: "distinct (map line_productId rest)" by simp
  from Cons.IH [OF v1 d nn upd] show ?case .
qed

lemma post_sales_products:
  assumes "post_sales usr now io req d = (r, d')"
  shows "products_json d' = products_json d \<or> products_json d' = [] \<or>
     (\<exists>st its. validate_items (readDataFile (read_products_ok io) (products_json d)) (req_items req) 0 [] = Inr (st, its) \<and>
        update_stock now (readDataFile (read_products_ok io) (products_json d)) (req_items req) = Some (products_json d'))"
  using assms
  by (auto simp: post_sales_def Let_def writeDataFile_def left_by_def
      split: if_splits sum.splits option.splits prod.splits write_outcome.splits
        residue.splits bool.splits)

lemma post_sales_distinct_lines_stock_nonneg:
  assumes "post_sales usr now io req d = (r, d')"
    and "distinct (map line_productId (req_items req))"
    and "\<forall>p \<in> set (products_json d). 0 \<le> stock p"
  shows "\<forall>p \<in> set (products_json d'). 0 \<le> stock p"
proof -
  from post_sales_products [OF assms(1)]
  consider "products_json d' = products_json d" | "products_json d' = []"
    | st its where
      "validate_items (readDataFile (read_products_ok io) (products_json d)) (req_items req) 0 [] = Inr (st, its)"
      "update_stock now (readDataFile (read_products_ok io) (products_json d)) (req_items req) = Some (products_json d')"
    by blast
  then show ?thesis
  proof cases
    case 1
    with assms(3) show ?thesis by simp
  next
    case 2
    then show ?thesis by simp
  next
    case 3
    have "\<forall>p \<in> set (readDataFile (read_products_ok io) (products_json d)). 0 \<le> stock p"
      using assms(3) by (simp add: readDataFile_def)
    from update_stock_distinct_nonneg [OF 3(1) assms(2) this 3(2)] show ?thesis .
  qed
qed


section \<open>Stock under commits\<close>

text \<open>
  C1. The stock of every product stays non-negative under accepted commits, and a commit
  whose lines would in aggregate overdraw a product is refused. The first loop compares
  each line with the stock on its own, so this fails for a cart with two lines for one
  product: with stock 5 and two lines of quantity 3 the request passes the validators, the
  commit is accepted, and the stock written is -1.
\<close>

theorem C1_duplicate_lines_overdraw_stock:
  "valid_request (mk_request [mk_line 1 3, mk_line 1 3] None None) \<and>
   map stock (products_json (mk_disk [mk_product 1 ''Widget'' 10 5] [])) = [5] \<and>
   accepted (fst (post_sales cashier 1000 io_ok (mk_request [mk_line 1 3, mk_line 1 3] None None)
      (mk_disk [mk_product 1 ''Widget'' 10 5] []))) \<and>
   map stock (products_json (snd (post_sales cashier 1000 io_ok
      (mk_request [mk_line 1 3, mk_line 1 3] None None)
      (mk_disk [mk_product 1 ''Widget'' 10 5] [])))) = [- 1]"
  by (simp add: fixture_defs handler_defs accepted_def)


section \<open>The empty cart\<close>

text \<open>
  C2. A commit of a cart with no lines is refused and changes nothing. On the server the
  empty array passes the validators and both loops run zero times, so the commit is
  accepted and a sale without items is appended to the history.
\<close>

theorem C2_empty_cart_is_committed:
  "valid_request (mk_request [] None None) \<and>
   post_sales cashier 1000 io_ok (mk_request [] None None) (mk_disk [mk_product 1 ''Widget'' 10 5] []) =
     (Created
        \<lparr>sale_id = 1, sale_items = [], subtotal = 0, discount = 0, tax = 0, sale_total = 0,
         paymentMethod = ''cash'', customerName = ''Walk-in Customer'',
         cashierId = 2, cashierName = ''cashier'', createdAt = 1000\<rparr>,
      mk_disk [mk_product 1 ''Widget'' 10 5]
        [\<lparr>sale_id = 1, sale_items = [], subtotal = 0, discount = 0, tax = 0, sale_total = 0,
          paymentMethod = ''cash'', customerName = ''Walk-in Customer'',
          cashierId = 2, cashierName = ''cashier'', createdAt = 1000\<rparr>])"
  by (simp add: fixture_defs handler_defs)


section \<open>Failing writes\<close>

text \<open>
  C3, as stated: when either write fails, neither the stock decrement nor the sale takes
  effect. It fails when the second write throws and leaves its file as it was: the answer
  is the server error, the products file already holds the decremented stock, and no sale
  is recorded.
\<close>

theorem C3_sale_write_failure_counterexample:
  "post_sales cashier 1000 (io_ok\<lparr>write_sales := Write_fails Untouched\<rparr>)
      (mk_request [mk_line 1 3] None None) (mk_disk [mk_product 1 ''Widget'' 10 5] []) =
     (Server_error, mk_disk [(mk_product 1 ''Widget'' 10 2)\<lparr>lastUpdated := 1000\<rparr>] [])"
  by (simp add: fixture_defs handler_defs)

text \<open>
  C3, amended. Take a request that passes the validators and the first loop, and let
  \<open>ps'\<close> be the products after the second loop. If the history read is too long for the
  call that computes the identifier, the answer is the server error and no file changes.
  Otherwise: if the write of the products throws, the answer is the server error, the
  sales file is as before, and the products file holds what the failed write left (its
  old content, nothing that parses, or \<open>ps'\<close>); if the write of the products succeeds
  and the write of the sales throws, the answer is the server error, the products file
  holds \<open>ps'\<close>, and the sales file holds what the failed write left (its old content,
  nothing that parses, or the history read with the new sale); if both succeed, the sale
  is created and both files are written. So the sales file is written only after the
  stock update has been written, and a failed commit can leave either half in effect.
\<close>

theorem C3_failed_writes:
  assumes "valid_request req"
    and "validate_items (readDataFile (read_products_ok io) (products_json d)) (req_items req) 0 [] =
      Inr (st, its)"
  shows "\<exists>ps'.
     update_stock now (readDataFile (read_products_ok io) (products_json d)) (req_items req) = Some ps' \<and>
     (max_arguments io < length (readDataFile (read_sales_ok io) (sales_json d)) + 1 \<longrightarrow>
        post_sales usr now io req d = (Server_error, d)) \<and>
     (length (readDataFile (read_sales_ok io) (sales_json d)) + 1 \<le> max_arguments io \<longrightarrow>
        (\<exists>s. sale_items s = its \<and> subtotal s = st \<and> createdAt s = now \<and>
           (\<forall>r. write_products io = Write_fails r \<longrightarrow>
              post_sales usr now io req d =
                (Server_error, d\<lparr>products_json := left_by r (products_json d) ps'\<rparr>)) \<and>
           (\<forall>r. write_products io = Write_ok \<and> write_sales io = Write_fails r \<longrightarrow>
              post_sales usr now io req d =
                (Server_error,
                 d\<lparr>products_json := ps',
                   sales_json :=
                     left_by r (sales_json d)
                       (readDataFile (read_sales_ok io) (sales_json d) @ [s])\<rparr>)) \<and>
           (write_products io = Write_ok \<and> write_sales io = Write_ok \<longrightarrow>
              post_sales usr now io req d =
                (Created s,
                 d\<lparr>products_json := ps',
                   sales_json := readDataFile (read_sales_ok io) (sales_json d) @ [s]\<rparr>))))"
proof -
  let ?H = "readDataFile (read_sales_ok io) (sales_json d)"
  from validate_items_update_stock [OF assms(2)] obtain ps' where
    ps': "update_stock now (readDataFile (read_products_ok io) (products_json d)) (req_items req) = Some ps'"
    by blast
  have long: "max_arguments io < length ?H + 1 \<longrightarrow> post_sales usr now io req d = (Server_error, d)"
    using assms by (simp add: post_sales_def Let_def next_sale_id_def)
  have short: "length ?H + 1 \<le> max_arguments io \<longrightarrow>
        (\<exists>s. sale_items s = its \<and> subtotal s = st \<and> createdAt s = now \<and>
           (\<forall>r. write_products io = Write_fails r \<longrightarrow>
              post_sales usr now io req d =
                (Server_error, d\<lparr>products_json := left_by r (products_json d) ps'\<rparr>)) \<and>
           (\<forall>r. write_products io = Write_ok \<and> write_sales io = Write_fails r \<longrightarrow>
              post_sales usr now io req d =
                (Server_error,
                 d\<lparr>products_json := ps',
                   sales_json := left_by r (sales_json d) (?H @ [s])\<rparr>)) \<and>
           (write_products io = Write_ok \<and> write_sales io = Write_ok \<longrightarrow>
              post_sales usr now io req d =
                (Created s, d\<lparr>products_json := ps', sales_json := ?H @ [s]\<rparr>)))"
  proof
    assume fits: "length ?H + 1 \<le> max_arguments io"
    let ?s = "\<lparr>sale_id = fold max (map sale_id ?H) 0 + 1,
        sale_items = its, subtotal = st,
        discount = (case req_discount req of None \<Rightarrow> 0 | Some x \<Rightarrow> x),
        tax = (case req_tax req of None \<Rightarrow> 0 | Some x \<Rightarrow> x),
        sale_total = st - (case req_discount req of None \<Rightarrow> 0 | Some x \<Rightarrow> x)
          + (case req_tax req of None \<Rightarrow> 0 | Some x \<Rightarrow> x),
        paymentMethod = req_paymentMethod req,
        customerName =
          (case req_customerName req of
             None \<Rightarrow> ''Walk-in Customer''
           | Some n \<Rightarrow> if n = [] then ''Walk-in Customer'' else n),
        cashierId = user_id usr, cashierName = username usr, createdAt = now\<rparr>"
    have id: "next_sale_id (max_arguments io) ?H = Some (fold max (map sale_id ?H) 0 + 1)"
      using fits by (simp add: next_sale_id_def)
    have "sale_items ?s = its \<and> subtotal ?s = st \<and> createdAt ?s = now \<and>
           (\<forall>r. write_products io = Write_fails r \<longrightarrow>
              post_sales usr now io req d =
                (Server_error, d\<lparr>products_json := left_by r (products_json d) ps'\<rparr>)) \<and>
           (\<forall>r. write_products io = Write_ok \<and> write_sales io = Write_fails r \<longrightarrow>
              post_sales usr now io req d =
                (Server_error,
                 d\<lparr>products_json := ps',
                   sales_json := left_by r (sales_json d) (?H @ [?s])\<rparr>)) \<and>
           (write_products io = Write_ok \<and> write_sales io = Write_ok \<longrightarrow>
              post_sales usr now io req d =
                (Created ?s, d\<lparr>products_json := ps', sales_json := ?H @ [?s]\<rparr>))"
      using assms ps' id by (simp add: post_sales_def Let_def writeDataFile_def)
    then show "\<exists>s. sale_items s = its \<and> subtotal s = st \<and> createdAt s = now \<and>
           (\<forall>r. write_products io = Write_fails r \<longrightarrow>
              post_sales usr now io req d =
                (Server_error, d\<lparr>products_json := left_by r (products_json d) ps'\<rparr>)) \<and>
           (\<forall>r. write_products io = Write_ok \<and> write_sales io = Write_fails r \<longrightarrow>
              post_sales usr now io req d =
                (Server_error,
                 d\<lparr>products_json := ps',
                   sales_json := left_by r (sales_json d) (?H @ [s])\<rparr>)) \<and>
           (write_products io = Write_ok \<and> write_sales io = Write_ok \<longrightarrow>
              post_sales usr now io req d =
                (Created s, d\<lparr>products_json := ps', sales_json := ?H @ [s]\<rparr>))"
      by (rule exI)
  qed
  from ps' long short show ?thesis by (intro exI [of _ ps'] conjI)
qed

theorem C3_failed_writes_witness:
  "post_sales cashier 1000 (io_ok\<lparr>write_products := Write_fails Truncated\<rparr>)
     (mk_request [mk_line 1 3] None None)
     (mk_disk [mk_product 1 ''Widget'' 10 5] [mk_sale 1 10 [] 0]) =
     (Server_error, mk_disk [] [mk_sale 1 10 [] 0]) \<and>
   post_sales cashier 1000 (io_ok\<lparr>write_sales := Write_fails Truncated\<rparr>)
     (mk_request [mk_line 1 3] None None)
     (mk_disk [mk_product 1 ''Widget'' 10 5] [mk_sale 1 10 [] 0]) =
     (Server_error, mk_disk [(mk_product 1 ''Widget'' 10 2)\<lparr>lastUpdated := 1000\<rparr>] [])"
proof -
  let ?req = "mk_request [mk_line 1 3] None None"
  let ?d = "mk_disk [mk_product 1 ''Widget'' 10 5] [mk_sale 1 10 [] 0]"
  let ?its = "[\<lparr>item_productId = 1, item_productName = ''Widget'', item_sku = ''SKU'',
          item_price = 10, item_quantity = 3, item_total = 30\<rparr>]"
  let ?ps' = "[(mk_product 1 ''Widget'' 10 2)\<lparr>lastUpdated := 1000\<rparr>]"
  have v: "valid_request ?req"
    by (simp add: fixture_defs valid_request_def)
  have first: "post_sales cashier 1000 (io_ok\<lparr>write_products := Write_fails Truncated\<rparr>) ?req ?d =
     (Server_error, mk_disk [] [mk_sale 1 10 [] 0])"
  proof -
    let ?io = "io_ok\<lparr>write_products := Write_fails Truncated\<rparr>"
    have l: "validate_items (readDataFile (read_products_ok ?io) (products_json ?d)) (req_items ?req) 0 [] =
        Inr (30, ?its)"
      by (simp add: fixture_defs readDataFile_def)
    have fits: "length (readDataFile (read_sales_ok ?io) (sales_json ?d)) + 1 \<le> max_arguments ?io"
      by (simp add: fixture_defs readDataFile_def)
    have w: "write_products ?io = Write_fails Truncated"
      by (simp add: io_ok_def)
    from C3_failed_writes [OF v l, of 1000 cashier] obtain ps' where
      sh: "length (readDataFile (read_sales_ok ?io) (sales_json ?d)) + 1 \<le> max_arguments ?io \<longrightarrow>
        (\<exists>s. sale_items s = ?its \<and> subtotal s = 30 \<and> createdAt s = 1000 \<and>
           (\<forall>r. write_products ?io = Write_fails r \<longrightarrow>
              post_sales cashier 1000 ?io ?req ?d =
                (Server_error, ?d\<lparr>products_json := left_by r (products_json ?d) ps'\<rparr>)) \<and>
           (\<forall>r. write_products ?io = Write_ok \<and> write_sales ?io = Write_fails r \<longrightarrow>
              post_sales cashier 1000 ?io ?req ?d =
                (Server_error,
                 ?d\<lparr>products_json := ps',
                   sales_json :=
                     left_by r (sales_json ?d)
                       (readDataFile (read_sales_ok ?io) (sales_json ?d) @ [s])\<rparr>)) \<and>
           (write_products ?io = Write_ok \<and> write_sales ?io = Write_ok \<longrightarrow>
              post_sales cashier 1000 ?io ?req ?d =
                (Created s,
                 ?d\<lparr>products_json := ps',
                   sales_json := readDataFile (read_sales_ok ?io) (sales_json ?d) @ [s]\<rparr>)))"
      by (elim exE conjE)
    from mp [OF sh fits] obtain s where
      f: "\<forall>r. write_products ?io = Write_fails r \<longrightarrow>
              post_sales cashier 1000 ?io ?req ?d =
                (Server_error, ?d\<lparr>products_json := left_by r (products_json ?d) ps'\<rparr>)"
      by (elim exE conjE)
    from f [rule_format, OF w]
    show ?thesis by (simp add: left_by_def mk_disk_def)
  qed
  have second: "post_sales cashier 1000 (io_ok\<lparr>write_sales := Write_fails Truncated\<rparr>) ?req ?d =
     (Server_error, mk_disk ?ps' [])"
  proof -
    let ?io = "io_ok\<lparr>write_sales := Write_fails Truncated\<rparr>"
    have l: "validate_items (readDataFile (read_products_ok ?io) (products_json ?d)) (req_items ?req) 0 [] =
        Inr (30, ?its)"
      by (simp add: fixture_defs readDataFile_def)
    have fits: "length (readDataFile (read_sales_ok ?io) (sales_json ?d)) + 1 \<le> max_arguments ?io"
      by (simp add: fixture_defs readDataFile_def)
    have w: "write_products ?io = Write_ok \<and> write_sales ?io = Write_fails Truncated"
      by (simp add: io_ok_def)
    have u: "update_stock 1000 (readDataFile (read_products_ok ?io) (products_json ?d)) (req_items ?req) =
        Some ?ps'"
      by (simp add: fixture_defs readDataFile_def)
    from C3_failed_writes [OF v l, of 1000 cashier] obtain ps' where
      u': "update_stock 1000 (readDataFile (read_products_ok ?io) (products_json ?d)) (req_items ?req) =
        Some ps'"
      and sh: "length (readDataFile (read_sales_ok ?io) (sales_json ?d)) + 1 \<le> max_arguments ?io \<longrightarrow>
        (\<exists>s. sale_items s = ?its \<and> subtotal s = 30 \<and> createdAt s = 1000 \<and>
           (\<forall>r. write_products ?io = Write_fails r \<longrightarrow>
              post_sales cashier 1000 ?io ?req ?d =
                (Server_error, ?d\<lparr>products_json := left_by r (products_json ?d) ps'\<rparr>)) \<and>
           (\<forall>r. write_products ?io = Write_ok \<and> write_sales ?io = Write_fails r \<longrightarrow>
              post_sales cashier 1000 ?io ?req ?d =
                (Server_error,
                 ?d\<lparr>products_json := ps',
                   sales_json :=
                     left_by r (sales_json ?d)
                       (readDataFile (read_sales_ok ?io) (sales_json ?d) @ [s])\<rparr>)) \<and>
           (write_products ?io = Write_ok \<and> write_sales ?io = Write_ok \<longrightarrow>
              post_sales cashier 1000 ?io ?req ?d =
                (Created s,
                 ?d\<lparr>products_json := ps',
                   sales_json := readDataFile (read_sales_ok ?io) (sales_json ?d) @ [s]\<rparr>)))"
      by (elim exE conjE)
    from u u' have ps': "ps' = ?ps'" by simp
    from mp [OF sh fits] obtain s where
      f: "\<forall>r. write_products ?io = Write_ok \<and> write_sales ?io = Write_fails r \<longrightarrow>
              post_sales cashier 1000 ?io ?req ?d =
                (Server_error,
                 ?d\<lparr>products_json := ps',
                   sales_json :=
                     left_by r (sales_json ?d)
                       (readDataFile (read_sales_ok ?io) (sales_json ?d) @ [s])\<rparr>)"
      by (elim exE conjE)
    from f [rule_format, OF w]
    show ?thesis by (simp add: left_by_def mk_disk_def ps')
  qed
  show ?thesis by (rule conjI [OF first second])
qed


section \<open>Insufficient stock\<close>

text \<open>
  C4, as stated: the error of a line that asks for more than the stock carries the
  product id, the requested and the available quantity. The response carries the
  product's name only: a request for 3 of product 1 with stock 2 and a request for 9 of
  product 7 with stock 4 get the same response when the two products share a name.
\<close>

theorem C4_error_payload_counterexample:
  "fst (post_sales cashier 1000 io_ok (mk_request [mk_line 1 3] None None)
          (mk_disk [mk_product 1 ''Widget'' 10 2] [])) =
     Bad_request (Insufficient_stock_for ''Widget'') \<and>
   fst (post_sales cashier 1000 io_ok (mk_request [mk_line 7 9] None None)
          (mk_disk [mk_product 7 ''Widget'' 10 4] [])) =
     Bad_request (Insufficient_stock_for ''Widget'')"
  by (simp add: fixture_defs handler_defs)

text \<open>
  C4, amended. A commit of one line whose quantity exceeds the stock of the product found
  is answered with the insufficient-stock message, which carries the product's name, and
  leaves every file as it was; with stock 2 and quantity 3 the stock stays 2.
\<close>

theorem C4_insufficient_stock_names_product:
  assumes "valid_request req"
    and "req_items req = [line]"
    and "find (\<lambda>p. product_id p = line_productId line)
           (readDataFile (read_products_ok io) (products_json d)) = Some p"
    and "stock p < line_quantity line"
  shows "post_sales usr now io req d = (Bad_request (Insufficient_stock_for (product_name p)), d)"
  using assms by (simp add: post_sales_def Let_def)

theorem C4_insufficient_stock_names_product_witness:
  "post_sales cashier 1000 io_ok (mk_request [mk_line 1 3] None None)
      (mk_disk [mk_product 1 ''Widget'' 10 2] []) =
     (Bad_request (Insufficient_stock_for ''Widget''), mk_disk [mk_product 1 ''Widget'' 10 2] []) \<and>
   map stock (products_json (snd (post_sales cashier 1000 io_ok (mk_request [mk_line 1 3] None None)
      (mk_disk [mk_product 1 ''Widget'' 10 2] [])))) = [2]"
proof -
  have "post_sales cashier 1000 io_ok (mk_request [mk_line 1 3] None None)
      (mk_disk [mk_product 1 ''Widget'' 10 2] []) =
     (Bad_request (Insufficient_stock_for (product_name (mk_product 1 ''Widget'' 10 2))),
      mk_disk [mk_product 1 ''Widget'' 10 2] [])"
    by (rule C4_insufficient_stock_names_product [where line = "mk_line 1 3"])
      (simp_all add: fixture_defs valid_request_def readDataFile_def)
  then show ?thesis by (simp add: mk_product_def mk_disk_def)
qed


section \<open>Scenario A: pricing on the billing page, then the commit\<close>

lemmas billing_defs = addToCart_def cart_subtotal_def discountAmount_def taxableAmount_def
  taxAmount_def billing_total_def onSubmit_def

text \<open>
  C5. With a product of id 1, price 10.00 and stock 5, a cart of 3 units of it, a discount
  of 10 percent and a tax of 5 percent, the billing page computes subtotal 30.00, discount
  amount 3.00, taxable amount 27.00, tax amount 1.35 and total 28.35 by the four formulas,
  and sends the two amounts; the commit records the same subtotal, discount, tax and total
  and leaves the stock at 2.
\<close>

theorem C5_scenario_A:
  "addToCart (mk_product 1 ''Widget'' 10 5)
     (addToCart (mk_product 1 ''Widget'' 10 5) (addToCart (mk_product 1 ''Widget'' 10 5) [])) =
     [mk_item 1 ''Widget'' 3 30] \<and>
   cart_subtotal [mk_item 1 ''Widget'' 3 30] = 30 \<and>
   discountAmount [mk_item 1 ''Widget'' 3 30] 10 = 3 \<and>
   taxableAmount [mk_item 1 ''Widget'' 3 30] 10 = 27 \<and>
   taxAmount [mk_item 1 ''Widget'' 3 30] 10 5 = 1.35 \<and>
   billing_total [mk_item 1 ''Widget'' 3 30] 10 5 = 28.35 \<and>
   onSubmit \<lparr>form_customerName = [], form_paymentMethod = ''cash'',
             discountPercent = 10, taxPercent = 5\<rparr> [mk_item 1 ''Widget'' 3 30] =
     Some \<lparr>req_items = [mk_line 1 3], req_paymentMethod = ''cash'',
           req_customerName = Some ''Walk-in Customer'',
           req_discount = Some 3, req_tax = Some 1.35\<rparr> \<and>
   post_sales cashier 1000 io_ok
     \<lparr>req_items = [mk_line 1 3], req_paymentMethod = ''cash'',
      req_customerName = Some ''Walk-in Customer'',
      req_discount = Some 3, req_tax = Some 1.35\<rparr>
     (mk_disk [mk_product 1 ''Widget'' 10 5] []) =
     (Created
        \<lparr>sale_id = 1, sale_items = [mk_item 1 ''Widget'' 3 30],
         subtotal = 30, discount = 3, tax = 1.35, sale_total = 28.35,
         paymentMethod = ''cash'', customerName = ''Walk-in Customer'',
         cashierId = 2, cashierName = ''cashier'', createdAt = 1000\<rparr>,
      mk_disk [(mk_product 1 ''Widget'' 10 2)\<lparr>lastUpdated := 1000\<rparr>]
        [\<lparr>sale_id = 1, sale_items = [mk_item 1 ''Widget'' 3 30],
          subtotal = 30, discount = 3, tax = 1.35, sale_total = 28.35,
          paymentMethod = ''cash'', customerName = ''Walk-in Customer'',
          cashierId = 2, cashierName = ''cashier'', createdAt = 1000\<rparr>])"
proof (intro conjI)
  show "addToCart (mk_product 1 ''Widget'' 10 5)
     (addToCart (mk_product 1 ''Widget'' 10 5) (addToCart (mk_product 1 ''Widget'' 10 5) [])) =
     [mk_item 1 ''Widget'' 3 30]"
    by (simp add: addToCart_def mk_product_def mk_item_def)
  show "cart_subtotal [mk_item 1 ''Widget'' 3 30] = 30"
    by (simp add: billing_defs mk_item_def)
  show "discountAmount [mk_item 1 ''Widget'' 3 30] 10 = 3"
    by (simp add: billing_defs mk_item_def)
  show "taxableAmount [mk_item 1 ''Widget'' 3 30] 10 = 27"
    by (simp add: billing_defs mk_item_def)
  show "taxAmount [mk_item 1 ''Widget'' 3 30] 10 5 = 1.35"
    by (simp add: billing_defs mk_item_def)
  show "billing_total [mk_item 1 ''Widget'' 3 30] 10 5 = 28.35"
    by (simp add: billing_defs mk_item_def)
  show "onSubmit \<lparr>form_customerName = [], form_paymentMethod = ''cash'',
             discountPercent = 10, taxPercent = 5\<rparr> [mk_item 1 ''Widget'' 3 30] =
     Some \<lparr>req_items = [mk_line 1 3], req_paymentMethod = ''cash'',
           req_customerName = Some ''Walk-in Customer'',
           req_discount = Some 3, req_tax = Some 1.35\<rparr>"
    by (simp add: billing_defs mk_item_def mk_line_def)
  show "post_sales cashier 1000 io_ok
     \<lparr>req_items = [mk_line 1 3], req_paymentMethod = ''cash'',
      req_customerName = Some ''Walk-in Customer'',
      req_discount = Some 3, req_tax = Some 1.35\<rparr>
     (mk_disk [mk_product 1 ''Widget'' 10 5] []) =
     (Created
        \<lparr>sale_id = 1, sale_items = [mk_item 1 ''Widget'' 3 30],
         subtotal = 30, discount = 3, tax = 1.35, sale_total = 28.35,
         paymentMethod = ''cash'', customerName = ''Walk-in Customer'',
         cashierId = 2, cashierName = ''cashier'', createdAt = 1000\<rparr>,
      mk_disk [(mk_product 1 ''Widget'' 10 2)\<lparr>lastUpdated := 1000\<rparr>]
        [\<lparr>sale_id = 1, sale_items = [mk_item 1 ''Widget'' 3 30],
          subtotal = 30, discount = 3, tax = 1.35, sale_total = 28.35,
          paymentMethod = ''cash'', customerName = ''Walk-in Customer'',
          cashierId = 2, cashierName = ''cashier'', createdAt = 1000\<rparr>])"
    by (simp add: fixture_defs handler_defs)
qed


section \<open>Aggregation: filter and totals\<close>

lemma foldl_sum_list:
  "foldl (\<lambda>acc x. acc + f x) a xs = a + sum_list (map f xs)" for a :: "'b::comm_monoid_add"
  by (induction xs arbitrary: a) (simp_all add: add.assoc)

lemma foldl_nested_concat:
  "foldl (\<lambda>acc x. foldl f acc (g x)) a xs = foldl f a (concat (map g xs))"
  by (induction xs arbitrary: a) simp_all

lemma filter_sales_Nil: "filter_sales startDate endDate [] = []"
  by (simp add: filter_sales_def split: option.splits)

text \<open>
  C6. With both bounds given, the sales aggregated are exactly those with
  \<open>startDate \<le> createdAt \<le> endDate\<close>, in their order; with the bounds omitted they are
  the whole history; \<open>totalSales\<close> is the sum of their totals and \<open>totalTransactions\<close>
  their number.
\<close>

theorem C6_date_filter_and_totals:
  "filter_sales (Some (Time a)) (Some (Time b)) sales =
     filter (\<lambda>x. a \<le> createdAt x \<and> createdAt x \<le> b) sales \<and>
   filter_sales None None sales = sales \<and>
   totalSales (get_analytics_sales (io\<lparr>read_sales_ok := True\<rparr>) startDate endDate d) =
     sum_list (map sale_total (filter_sales startDate endDate (sales_json d))) \<and>
   totalTransactions (get_analytics_sales (io\<lparr>read_sales_ok := True\<rparr>) startDate endDate d) =
     length (filter_sales startDate endDate (sales_json d))"
  by (simp add: filter_sales_def get_analytics_sales_def readDataFile_def total_sales_def
      foldl_sum_list Let_def)


section \<open>Aggregation: top products\<close>

lemma product_sales_of_items:
  "product_sales_of fs = foldl add_product_sale [] (all_items fs)"
  by (simp add: product_sales_of_def all_items_def foldl_nested_concat)

lemma add_product_sale_keys:
  "fst ` set (add_product_sale acc item) = insert (item_productId item) (fst ` set acc)"
  by (simp add: add_product_sale_def AList.dom_update split: option.splits)

lemma add_product_sale_distinct:
  "distinct (map fst acc) \<Longrightarrow> distinct (map fst (add_product_sale acc item))"
  by (simp add: add_product_sale_def AList.distinct_update split: option.splits)

lemma acc_quantity_Nil: "acc_quantity [] k = 0"
  by (simp add: acc_quantity_def)

lemma acc_total_Nil: "acc_total [] k = 0"
  by (simp add: acc_total_def)

lemma add_product_sale_quantity:
  "acc_quantity (add_product_sale acc item) k =
     acc_quantity acc k + (if item_productId item = k then item_quantity item else 0)"
  by (simp add: acc_quantity_def add_product_sale_def AList.update_conv' split: option.splits)

lemma add_product_sale_total:
  "acc_total (add_product_sale acc item) k =
     acc_total acc k + (if item_productId item = k then item_total item else 0)"
  by (simp add: acc_total_def add_product_sale_def AList.update_conv' split: option.splits)

lemma foldl_add_product_sale_keys:
  "fst ` set (foldl add_product_sale acc its) = fst ` set acc \<union> item_productId ` set its"
  by (induction its arbitrary: acc) (auto simp: add_product_sale_keys)

lemma foldl_add_product_sale_distinct:
  "distinct (map fst acc) \<Longrightarrow> distinct (map fst (foldl add_product_sale acc its))"
  by (induction its arbitrary: acc) (simp_all add: add_product_sale_distinct)

lemma foldl_add_product_sale_quantity:
  "acc_quantity (foldl add_product_sale acc its) k = acc_quantity acc k + quantity_of k its"
  by (induction its arbitrary: acc) (simp_all add: add_product_sale_quantity quantity_of_def)

lemma foldl_add_product_sale_total:
  "acc_total (foldl add_product_sale acc its) k = acc_total acc k + total_of k its"
  by (induction its arbitrary: acc) (simp_all add: add_product_sale_total total_of_def)

lemma product_sales_of_distinct: "distinct (map fst (product_sales_of fs))"
  by (simp add: product_sales_of_items foldl_add_product_sale_distinct)

lemma product_sales_of_keys:
  "fst ` set (product_sales_of fs) = item_productId ` set (all_items fs)"
  by (simp add: product_sales_of_items foldl_add_product_sale_keys)

lemma product_sales_of_entry:
  assumes "(k, e) \<in> set (product_sales_of fs)"
  shows "ps_quantity e = quantity_of k (all_items fs)"
    and "ps_total e = total_of k (all_items fs)"
proof -
  from assms have m: "map_of (product_sales_of fs) k = Some e"
    by (simp add: product_sales_of_distinct)
  have "acc_quantity (product_sales_of fs) k = quantity_of k (all_items fs)"
    by (simp add: product_sales_of_items foldl_add_product_sale_quantity acc_quantity_Nil)
  with m show "ps_quantity e = quantity_of k (all_items fs)"
    by (simp add: acc_quantity_def)
  have "acc_total (product_sales_of fs) k = total_of k (all_items fs)"
    by (simp add: product_sales_of_items foldl_add_product_sale_total acc_total_Nil)
  with m show "ps_total e = total_of k (all_items fs)"
    by (simp add: acc_total_def)
qed

lemma set_object_entries: "set (object_entries obj) = set obj"
  by (auto simp: object_entries_def)

lemma length_object_entries: "length (object_entries obj) = length obj"
  by (simp add: object_entries_def sum_length_filter_compl)

lemma distinct_object_entries:
  "distinct (map fst obj) \<Longrightarrow> distinct (map fst (object_entries obj))"
  by (auto simp: object_entries_def distinct_map distinct_map_filter intro: inj_on_subset)

lemma distinct_map_sort_key:
  "distinct (map g xs) \<Longrightarrow> distinct (map g (sort_key f xs))"
  by (simp add: distinct_map)

lemma sorted_wrt_filter_conv:
  "sorted_wrt S (filter P xs) = sorted_wrt (\<lambda>a b. P a \<and> P b \<longrightarrow> S a b) xs"
  by (induction xs) auto


lemma sorted_wrt_strict_object_index_part:
  assumes "distinct (map fst obj)"
  shows "sorted_wrt (\<lambda>a b. fst a < fst b) (sort_key fst (filter (\<lambda>kv. is_array_index (fst kv)) obj))"
proof -
  let ?A = "sort_key fst (filter (\<lambda>kv. is_array_index (fst kv)) obj)"
  have "distinct (map fst (filter (\<lambda>kv. is_array_index (fst kv)) obj))"
    using assms by (simp add: distinct_map_filter)
  then have "distinct (map fst ?A)" by (rule distinct_map_sort_key)
  moreover have "sorted (map fst ?A)" by (rule sorted_sort_key)
  ultimately have "sorted_wrt (<) (map fst ?A)" by (simp add: strict_sorted_iff)
  then show ?thesis by (simp add: sorted_wrt_map)
qed

lemma filter_index_object_entries:
  "filter (\<lambda>kv. is_array_index (fst kv)) (object_entries obj) =
     sort_key fst (filter (\<lambda>kv. is_array_index (fst kv)) obj)"
proof -
  have "filter (\<lambda>kv. is_array_index (fst kv)) (sort_key fst (filter (\<lambda>kv. is_array_index (fst kv)) obj)) =
      sort_key fst (filter (\<lambda>kv. is_array_index (fst kv)) obj)"
    by (rule filter_True) simp
  then show ?thesis by (simp add: object_entries_def)
qed

lemma stable_sort_ties_object_entries:
  assumes "distinct (map fst obj)"
  shows "sorted_wrt
     (\<lambda>a b. f a = f b \<and> is_array_index (fst a) \<and> is_array_index (fst b) \<longrightarrow> fst a < fst b)
     (sort_key f (object_entries obj))"
    (is "sorted_wrt ?R ?L")
proof (unfold sorted_wrt_iff_nth_less, intro allI impI)
  fix i j assume ij: "i < j" and j: "j < length ?L"
    and tie: "f (?L ! i) = f (?L ! j) \<and> is_array_index (fst (?L ! i)) \<and> is_array_index (fst (?L ! j))"
  let ?q = "f (?L ! i)"
  let ?P = "\<lambda>y. f y = ?q"
  let ?I = "\<lambda>kv::int \<times> 'a. is_array_index (fst kv)"
  have "filter ?I (filter ?P ?L) = filter ?P (sort_key fst (filter ?I obj))"
  proof -
    have "filter ?I (filter ?P ?L) = filter ?I (filter ?P (object_entries obj))"
      by (simp only: sort_key_stable)
    also have "\<dots> = filter ?P (filter ?I (object_entries obj))"
      by (simp add: conj_commute)
    finally show ?thesis by (simp only: filter_index_object_entries)
  qed
  moreover have "sorted_wrt (\<lambda>a b. fst a < fst b) (filter ?P (sort_key fst (filter ?I obj)))"
    by (rule sorted_wrt_filter [OF sorted_wrt_strict_object_index_part [OF assms]])
  ultimately have "sorted_wrt (\<lambda>a b. fst a < fst b) (filter (\<lambda>y. ?P y \<and> ?I y) ?L)"
    by (simp add: conj_commute)
  then have "sorted_wrt (\<lambda>a b. (?P a \<and> ?I a) \<and> (?P b \<and> ?I b) \<longrightarrow> fst a < fst b) ?L"
    by (simp only: sorted_wrt_filter_conv)
  from sorted_wrt_nth_less [OF this ij j] tie
  show "fst (?L ! i) < fst (?L ! j)" by simp
qed

lemmas analytics_defs =
  top_products_def product_sales_of_def add_product_sale_def object_entries_def
  is_array_index_def

text \<open>
  C7. The top products have at most 10 entries, one per product id (as many as there are
  ids, up to 10); each entry holds the summed quantity and the summed total of the line
  items with its id; the entries are in descending order of quantity; and entries of
  equal quantity are in ascending order of product id, for ids that are array indices.
\<close>

theorem C7_top_products:
  "length (top_products fs) \<le> 10 \<and>
   length (top_products fs) = min 10 (card (item_productId ` set (concat (map sale_items fs)))) \<and>
   distinct (map tp_productId (top_products fs)) \<and>
   (\<forall>t \<in> set (top_products fs).
      tp_quantity t =
        sum_list (map item_quantity
          (filter (\<lambda>i. item_productId i = tp_productId t) (concat (map sale_items fs)))) \<and>
      tp_total t =
        sum_list (map item_total
          (filter (\<lambda>i. item_productId i = tp_productId t) (concat (map sale_items fs))))) \<and>
   sorted_wrt (\<lambda>a b. tp_quantity b \<le> tp_quantity a) (top_products fs) \<and>
   sorted_wrt
     (\<lambda>a b. tp_quantity a = tp_quantity b \<and>
            is_array_index (tp_productId a) \<and> is_array_index (tp_productId b) \<longrightarrow>
            tp_productId a < tp_productId b)
     (top_products fs)"
proof -
  let ?ps = "product_sales_of fs"
  let ?key = "\<lambda>(productId :: int, entry). - ps_quantity entry"
  let ?L = "sort_key ?key (object_entries ?ps)"
  let ?F = "\<lambda>(productId, entry).
            \<lparr>tp_productId = productId, tp_productName = ps_productName entry,
             tp_quantity = ps_quantity entry, tp_total = ps_total entry\<rparr>"
  have top: "top_products fs = map ?F (take 10 ?L)"
    by (simp add: top_products_def)
  have ids: "map tp_productId (map ?F xs) = map fst xs" for xs
    by (induction xs) (simp_all add: case_prod_beta)
  have dL: "distinct (map fst ?L)"
    by (intro distinct_map_sort_key distinct_object_entries product_sales_of_distinct)
  have len: "length (top_products fs) \<le> 10"
    by (simp add: top)
  have "length ?ps = card (fst ` set ?ps)"
    using distinct_card [OF product_sales_of_distinct [of fs]] by simp
  then have card: "length (top_products fs) =
      min 10 (card (item_productId ` set (concat (map sale_items fs))))"
    by (simp add: top length_object_entries product_sales_of_keys all_items_def min.commute)
  have dist: "distinct (map tp_productId (top_products fs))"
    using dL by (simp only: top ids take_map [symmetric] distinct_take)
  have sums: "\<forall>t \<in> set (top_products fs).
      tp_quantity t =
        sum_list (map item_quantity
          (filter (\<lambda>i. item_productId i = tp_productId t) (concat (map sale_items fs)))) \<and>
      tp_total t =
        sum_list (map item_total
          (filter (\<lambda>i. item_productId i = tp_productId t) (concat (map sale_items fs))))"
  proof
    fix t assume "t \<in> set (top_products fs)"
    then obtain k e where t: "t = ?F (k, e)" and "(k, e) \<in> set (take 10 ?L)"
      by (auto simp: top)
    then have "(k, e) \<in> set ?L" by (auto dest: in_set_takeD)
    then have "(k, e) \<in> set ?ps" by (simp add: set_object_entries)
    from product_sales_of_entry [OF this] t
    show "tp_quantity t =
        sum_list (map item_quantity
          (filter (\<lambda>i. item_productId i = tp_productId t) (concat (map sale_items fs)))) \<and>
      tp_total t =
        sum_list (map item_total
          (filter (\<lambda>i. item_productId i = tp_productId t) (concat (map sale_items fs))))"
      by (simp add: quantity_of_def total_of_def all_items_def)
  qed
  have "sorted (map ?key ?L)" by (rule sorted_sort_key)
  then have "sorted_wrt (\<lambda>x y. ?key x \<le> ?key y) ?L" by (simp only: sorted_map)
  then have "sorted_wrt (\<lambda>x y. ?key x \<le> ?key y) (take 10 ?L)" by (rule sorted_wrt_take)
  then have desc: "sorted_wrt (\<lambda>a b. tp_quantity b \<le> tp_quantity a) (top_products fs)"
    by (simp add: top sorted_wrt_map case_prod_beta)
  have "sorted_wrt
     (\<lambda>a b. ?key a = ?key b \<and> is_array_index (fst a) \<and> is_array_index (fst b) \<longrightarrow> fst a < fst b) ?L"
    by (rule stable_sort_ties_object_entries [OF product_sales_of_distinct])
  then have "sorted_wrt
     (\<lambda>a b. ?key a = ?key b \<and> is_array_index (fst a) \<and> is_array_index (fst b) \<longrightarrow> fst a < fst b)
     (take 10 ?L)"
    by (rule sorted_wrt_take)
  then have ties: "sorted_wrt
     (\<lambda>a b. tp_quantity a = tp_quantity b \<and>
            is_array_index (tp_productId a) \<and> is_array_index (tp_productId b) \<longrightarrow>
            tp_productId a < tp_productId b)
     (top_products fs)"
    by (simp add: top sorted_wrt_map case_prod_beta)
  from len card dist sums desc ties show ?thesis by (intro conjI)
qed

theorem C7_top_products_witness:
  "top_products
     [mk_sale 1 10 [mk_item 2 ''B'' 1 5, mk_item 1 ''A'' 1 3] 8,
      mk_sale 2 20 [mk_item 3 ''C'' 4 8, mk_item 1 ''A'' 1 3, mk_item 2 ''B'' 1 5] 16] =
     [\<lparr>tp_productId = 3, tp_productName = ''C'', tp_quantity = 4, tp_total = 8\<rparr>,
      \<lparr>tp_productId = 1, tp_productName = ''A'', tp_quantity = 2, tp_total = 6\<rparr>,
      \<lparr>tp_productId = 2, tp_productName = ''B'', tp_quantity = 2, tp_total = 10\<rparr>] \<and>
   (2::int) =
     sum_list (map item_quantity
       (filter (\<lambda>i. item_productId i = 1)
         (concat (map sale_items
           [mk_sale 1 10 [mk_item 2 ''B'' 1 5, mk_item 1 ''A'' 1 3] 8,
            mk_sale 2 20 [mk_item 3 ''C'' 4 8, mk_item 1 ''A'' 1 3, mk_item 2 ''B'' 1 5] 16]))))"
proof -
  let ?fs = "[mk_sale 1 10 [mk_item 2 ''B'' 1 5, mk_item 1 ''A'' 1 3] 8,
      mk_sale 2 20 [mk_item 3 ''C'' 4 8, mk_item 1 ''A'' 1 3, mk_item 2 ''B'' 1 5] 16]"
  let ?a = "\<lparr>tp_productId = 1, tp_productName = ''A'', tp_quantity = 2, tp_total = 6\<rparr>"
  have ev: "top_products ?fs =
     [\<lparr>tp_productId = 3, tp_productName = ''C'', tp_quantity = 4, tp_total = 8\<rparr>, ?a,
      \<lparr>tp_productId = 2, tp_productName = ''B'', tp_quantity = 2, tp_total = 10\<rparr>]"
    by (simp add: analytics_defs mk_sale_def mk_item_def)
  have "\<forall>t \<in> set (top_products ?fs).
      tp_quantity t =
        sum_list (map item_quantity
          (filter (\<lambda>i. item_productId i = tp_productId t) (concat (map sale_items ?fs)))) \<and>
      tp_total t =
        sum_list (map item_total
          (filter (\<lambda>i. item_productId i = tp_productId t) (concat (map sale_items ?fs))))"
    using C7_top_products [of ?fs] by (elim conjE)
  moreover have "?a \<in> set (top_products ?fs)" by (simp only: ev) simp
  ultimately have "tp_quantity ?a =
        sum_list (map item_quantity
          (filter (\<lambda>i. item_productId i = tp_productId ?a) (concat (map sale_items ?fs))))"
    by blast
  then have "(2::int) =
        sum_list (map item_quantity
          (filter (\<lambda>i. item_productId i = 1) (concat (map sale_items ?fs))))"
    by (simp only: top_product.simps)
  with ev show ?thesis by (rule conjI)
qed


section \<open>Aggregation: dangling products and the empty history\<close>

lemma add_category_sale_dangling:
  "find (\<lambda>p. product_id p = item_productId item) products = None \<Longrightarrow>
     add_category_sale products categories acc item = acc"
  by (simp add: add_category_sale_def)

lemma foldl_add_category_sale_filter:
  "foldl (add_category_sale products categories) acc
     (filter (\<lambda>item. find (\<lambda>p. product_id p = item_productId item) products \<noteq> None) its) =
   foldl (add_category_sale products categories) acc its"
  by (induction its arbitrary: acc) (simp_all add: add_category_sale_dangling del: not_None_eq)

lemma sales_by_category_resolving:
  "foldl (\<lambda>acc sale. foldl (add_category_sale products categories) acc (sale_items sale)) acc
     (map (\<lambda>s. s\<lparr>sale_items :=
                  filter (\<lambda>item. find (\<lambda>p. product_id p = item_productId item) products \<noteq> None)
                    (sale_items s)\<rparr>) fs) =
   foldl (\<lambda>acc sale. foldl (add_category_sale products categories) acc (sale_items sale)) acc fs"
  by (induction fs arbitrary: acc) (simp_all add: foldl_add_category_sale_filter del: not_None_eq)

text \<open>
  C8. The aggregation is a total function: its only response is the result. Line items
  whose product id resolves to no product contribute nothing to \<open>salesByCategory\<close>:
  removing them from every sale leaves the mapping as it is. On an empty history the
  result is total 0, count 0, the empty mapping and the empty list.
\<close>

theorem C8_aggregation_tolerates_dangling_and_empty:
  "sales_by_category products categories
     (map (\<lambda>s. s\<lparr>sale_items :=
                  filter (\<lambda>item. find (\<lambda>p. product_id p = item_productId item) products \<noteq> None)
                    (sale_items s)\<rparr>) fs) =
     sales_by_category products categories fs \<and>
   get_analytics_sales io startDate endDate (d\<lparr>sales_json := []\<rparr>) =
     \<lparr>totalSales = 0, totalTransactions = 0, salesByCategory = Map.empty, topProducts = []\<rparr>"
proof (rule conjI)
  show "sales_by_category products categories
     (map (\<lambda>s. s\<lparr>sale_items :=
                  filter (\<lambda>item. find (\<lambda>p. product_id p = item_productId item) products \<noteq> None)
                    (sale_items s)\<rparr>) fs) =
     sales_by_category products categories fs"
    by (simp only: sales_by_category_def sales_by_category_resolving)
  show "get_analytics_sales io startDate endDate (d\<lparr>sales_json := []\<rparr>) =
     \<lparr>totalSales = 0, totalTransactions = 0, salesByCategory = Map.empty, topProducts = []\<rparr>"
    by (simp add: sales_by_category_def get_analytics_sales_def
        readDataFile_def filter_sales_Nil total_sales_def top_products_def product_sales_of_def
        object_entries_def Let_def)
qed


section \<open>Sale identifiers\<close>

lemma new_sale_id_above:
  assumes "i = Max (insert 0 (sale_id ` set H)) + 1"
    and "\<forall>x\<in>set H. 1 \<le> sale_id x"
  shows "i = (if H = [] then 1 else Max (sale_id ` set H) + 1)"
    and "\<forall>x\<in>set H. sale_id x < i"
    and "1 \<le> i"
proof -
  let ?ids = "sale_id ` set H"
  show above: "\<forall>x\<in>set H. sale_id x < i"
  proof
    fix x assume "x \<in> set H"
    then have "sale_id x \<le> Max (insert 0 ?ids)" by (intro Max_ge) simp_all
    then show "sale_id x < i" by (simp add: assms(1))
  qed
  show "i = (if H = [] then 1 else Max ?ids + 1)"
  proof (cases "H = []")
    case True
    then show ?thesis by (simp add: assms(1))
  next
    case False
    then have ne: "?ids \<noteq> {}" by simp
    from False obtain x where x: "x \<in> set H"
      by (cases H) auto
    with assms(2) have "1 \<le> sale_id x" by simp
    moreover have "sale_id x \<le> Max ?ids" using x by (intro Max_ge) simp_all
    ultimately have "0 \<le> Max ?ids" by linarith
    moreover have "Max (insert 0 ?ids) = max 0 (Max ?ids)"
      using ne by (intro Max_insert) simp_all
    ultimately have "Max (insert 0 ?ids) = Max ?ids" by simp
    with False show ?thesis by (simp only: assms(1) if_False)
  qed
  have "0 \<le> Max (insert 0 ?ids)" by (intro Max_ge) simp_all
  then show "1 \<le> i" by (simp add: assms(1))
qed

text \<open>
  C9, as stated: every committed sale gets the greatest existing identifier plus 1, and
  identifiers are never used again. It fails when the read of the history fails:
  \<open>readDataFile\<close> then returns the empty array, the commit is accepted with identifier
  1 although the history holds the identifiers 1 and 2, and the history written holds the
  new sale alone.
\<close>

theorem C9_failed_read_reuses_id_counterexample:
  "post_sales cashier 1000 (io_ok\<lparr>read_sales_ok := False\<rparr>) (mk_request [mk_line 1 1] None None)
     (mk_disk [mk_product 1 ''Widget'' 10 5] [mk_sale 1 10 [] 0, mk_sale 2 20 [] 0]) =
   (Created
      \<lparr>sale_id = 1,
       sale_items =
         [\<lparr>item_productId = 1, item_productName = ''Widget'', item_sku = ''SKU'',
           item_price = 10, item_quantity = 1, item_total = 10\<rparr>],
       subtotal = 10, discount = 0, tax = 0, sale_total = 10,
       paymentMethod = ''cash'', customerName = ''Walk-in Customer'',
       cashierId = 2, cashierName = ''cashier'', createdAt = 1000\<rparr>,
    mk_disk [(mk_product 1 ''Widget'' 10 4)\<lparr>lastUpdated := 1000\<rparr>]
      [\<lparr>sale_id = 1,
        sale_items =
          [\<lparr>item_productId = 1, item_productName = ''Widget'', item_sku = ''SKU'',
            item_price = 10, item_quantity = 1, item_total = 10\<rparr>],
        subtotal = 10, discount = 0, tax = 0, sale_total = 10,
        paymentMethod = ''cash'', customerName = ''Walk-in Customer'',
        cashierId = 2, cashierName = ''cashier'', createdAt = 1000\<rparr>])"
  by (simp add: fixture_defs handler_defs)

text \<open>
  C9, amended. Let the identifiers of the history on disk be positive, as they are in
  every history that commits have built from the empty one. When the read of the history
  succeeds, a committed sale gets the identifier 1 on an empty history and the greatest
  existing identifier plus 1 otherwise; it is greater than every existing identifier and
  the history grows by exactly this sale, so identifiers stay distinct and increasing.
  When the read fails, the committed sale gets the identifier 1 and the history written
  holds this sale alone. In both cases the identifiers written are positive.
\<close>

theorem C9_sale_ids_of_history_read:
  assumes "post_sales usr now io req d = (Created s, d')"
    and "\<forall>x\<in>set (sales_json d). 1 \<le> sale_id x"
  shows "(read_sales_ok io \<longrightarrow>
       sale_id s = (if sales_json d = [] then 1 else Max (sale_id ` set (sales_json d)) + 1) \<and>
       (\<forall>x\<in>set (sales_json d). sale_id x < sale_id s) \<and>
       sales_json d' = sales_json d @ [s] \<and>
       (distinct (map sale_id (sales_json d)) \<longrightarrow> distinct (map sale_id (sales_json d'))) \<and>
       (sorted_wrt (<) (map sale_id (sales_json d)) \<longrightarrow>
          sorted_wrt (<) (map sale_id (sales_json d')))) \<and>
     (\<not> read_sales_ok io \<longrightarrow> sale_id s = 1 \<and> sales_json d' = [s]) \<and>
     (\<forall>x\<in>set (sales_json d'). 1 \<le> sale_id x)"
proof -
  let ?H = "readDataFile (read_sales_ok io) (sales_json d)"
  have sid: "sale_id s = Max (insert 0 (sale_id ` set ?H)) + 1"
    by (rule next_sale_id_Max [OF post_sales_Created_sale(1) [OF assms(1)]])
  have d': "sales_json d' = ?H @ [s]"
    by (rule post_sales_Created_sale(6) [OF assms(1)])
  have posH: "\<forall>x\<in>set ?H. 1 \<le> sale_id x"
    using assms(2) by (simp add: readDataFile_def)
  note props = new_sale_id_above [OF sid posH]
  have ok: "read_sales_ok io \<longrightarrow>
       sale_id s = (if sales_json d = [] then 1 else Max (sale_id ` set (sales_json d)) + 1) \<and>
       (\<forall>x\<in>set (sales_json d). sale_id x < sale_id s) \<and>
       sales_json d' = sales_json d @ [s] \<and>
       (distinct (map sale_id (sales_json d)) \<longrightarrow> distinct (map sale_id (sales_json d'))) \<and>
       (sorted_wrt (<) (map sale_id (sales_json d)) \<longrightarrow>
          sorted_wrt (<) (map sale_id (sales_json d')))"
  proof
    assume r: "read_sales_ok io"
    then have H: "?H = sales_json d" by (simp add: readDataFile_def)
    have val: "sale_id s = (if sales_json d = [] then 1 else Max (sale_id ` set (sales_json d)) + 1)"
      using props(1) by (simp only: H)
    have above: "\<forall>x\<in>set (sales_json d). sale_id x < sale_id s"
      using props(2) by (simp only: H)
    have app: "sales_json d' = sales_json d @ [s]"
      using d' by (simp only: H)
    have dist: "distinct (map sale_id (sales_json d)) \<longrightarrow> distinct (map sale_id (sales_json d'))"
      using above by (auto simp: app)
    have srt: "sorted_wrt (<) (map sale_id (sales_json d)) \<longrightarrow>
        sorted_wrt (<) (map sale_id (sales_json d'))"
      using above by (auto simp: app sorted_wrt_append)
    from val above app dist srt
    show "sale_id s = (if sales_json d = [] then 1 else Max (sale_id ` set (sales_json d)) + 1) \<and>
       (\<forall>x\<in>set (sales_json d). sale_id x < sale_id s) \<and>
       sales_json d' = sales_json d @ [s] \<and>
       (distinct (map sale_id (sales_json d)) \<longrightarrow> distinct (map sale_id (sales_json d'))) \<and>
       (sorted_wrt (<) (map sale_id (sales_json d)) \<longrightarrow>
          sorted_wrt (<) (map sale_id (sales_json d')))"
      by (intro conjI)
  qed
  have failed: "\<not> read_sales_ok io \<longrightarrow> sale_id s = 1 \<and> sales_json d' = [s]"
  proof
    assume "\<not> read_sales_ok io"
    then have H: "?H = []" by (simp add: readDataFile_def)
    from props(1) d' show "sale_id s = 1 \<and> sales_json d' = [s]"
      by (simp add: H)
  qed
  have pos: "\<forall>x\<in>set (sales_json d'). 1 \<le> sale_id x"
    using posH props(3) by (simp add: d')
  from ok failed pos show ?thesis by (intro conjI)
qed

theorem C9_sale_ids_of_history_read_witness:
  "post_sales cashier 1000 io_ok (mk_request [mk_line 1 1] None None)
     (mk_disk [mk_product 1 ''Widget'' 10 5] [mk_sale 1 10 [] 0, mk_sale 2 20 [] 0]) =
   (Created
      \<lparr>sale_id = 3,
       sale_items =
         [\<lparr>item_productId = 1, item_productName = ''Widget'', item_sku = ''SKU'',
           item_price = 10, item_quantity = 1, item_total = 10\<rparr>],
       subtotal = 10, discount = 0, tax = 0, sale_total = 10,
       paymentMethod = ''cash'', customerName = ''Walk-in Customer'',
       cashierId = 2, cashierName = ''cashier'', createdAt = 1000\<rparr>,
    mk_disk [(mk_product 1 ''Widget'' 10 4)\<lparr>lastUpdated := 1000\<rparr>]
      [mk_sale 1 10 [] 0, mk_sale 2 20 [] 0,
       \<lparr>sale_id = 3,
        sale_items =
          [\<lparr>item_productId = 1, item_productName = ''Widget'', item_sku = ''SKU'',
            item_price = 10, item_quantity = 1, item_total = 10\<rparr>],
        subtotal = 10, discount = 0, tax = 0, sale_total = 10,
        paymentMethod = ''cash'', customerName = ''Walk-in Customer'',
        cashierId = 2, cashierName = ''cashier'', createdAt = 1000\<rparr>]) \<and>
   (3::int) = Max (sale_id ` set [mk_sale 1 10 [] 0, mk_sale 2 20 [] 0]) + 1"
proof -
  let ?d = "mk_disk [mk_product 1 ''Widget'' 10 5] [mk_sale 1 10 [] 0, mk_sale 2 20 [] 0]"
  let ?s = "\<lparr>sale_id = 3,
       sale_items =
         [\<lparr>item_productId = 1, item_productName = ''Widget'', item_sku = ''SKU'',
           item_price = 10, item_quantity = 1, item_total = 10\<rparr>],
       subtotal = 10, discount = 0, tax = 0, sale_total = 10,
       paymentMethod = ''cash'', customerName = ''Walk-in Customer'',
       cashierId = 2, cashierName = ''cashier'', createdAt = 1000\<rparr>"
  let ?d' = "mk_disk [(mk_product 1 ''Widget'' 10 4)\<lparr>lastUpdated := 1000\<rparr>]
      [mk_sale 1 10 [] 0, mk_sale 2 20 [] 0, ?s]"
  have run: "post_sales cashier 1000 io_ok (mk_request [mk_line 1 1] None None) ?d = (Created ?s, ?d')"
    by (simp add: fixture_defs handler_defs)
  have rd: "read_sales_ok io_ok" by (simp add: io_ok_def)
  have inv: "\<forall>x\<in>set (sales_json ?d). 1 \<le> sale_id x" by (simp add: fixture_defs)
  have "read_sales_ok io_ok \<longrightarrow>
       sale_id ?s = (if sales_json ?d = [] then 1 else Max (sale_id ` set (sales_json ?d)) + 1) \<and>
       (\<forall>x\<in>set (sales_json ?d). sale_id x < sale_id ?s) \<and>
       sales_json ?d' = sales_json ?d @ [?s] \<and>
       (distinct (map sale_id (sales_json ?d)) \<longrightarrow> distinct (map sale_id (sales_json ?d'))) \<and>
       (sorted_wrt (<) (map sale_id (sales_json ?d)) \<longrightarrow>
          sorted_wrt (<) (map sale_id (sales_json ?d')))"
    using C9_sale_ids_of_history_read [OF run inv] by (rule conjunct1)
  from mp [OF this rd]
  have "sale_id ?s = (if sales_json ?d = [] then 1 else Max (sale_id ` set (sales_json ?d)) + 1)"
    by (rule conjunct1)
  then have ar: "(3::int) = Max (sale_id ` set [mk_sale 1 10 [] 0, mk_sale 2 20 [] 0]) + 1"
    by (simp add: mk_disk_def)
  show ?thesis by (rule conjI [OF run ar])
qed


section \<open>Discount and tax as amounts\<close>

text \<open>
  C10. The commit takes discount and tax as amounts: the sale records them as given (0
  when absent) with total = subtotal - discount + tax; the validators ask of them only
  that they are not negative; and there is an accepted request whose discount exceeds
  subtotal plus tax, for which a sale with a negative total is appended to the history.
\<close>

theorem C10_absolute_discount_negative_total:
  "(post_sales usr now io req d = (Created s, d') \<longrightarrow>
      discount s = (case req_discount req of None \<Rightarrow> 0 | Some x \<Rightarrow> x) \<and>
      tax s = (case req_tax req of None \<Rightarrow> 0 | Some x \<Rightarrow> x) \<and>
      sale_total s = subtotal s - discount s + tax s \<and>
      s \<in> set (sales_json d')) \<and>
   (valid_request (req\<lparr>req_discount := Some x, req_tax := Some y\<rparr>) \<longleftrightarrow>
      valid_request (req\<lparr>req_discount := None, req_tax := None\<rparr>) \<and> 0 \<le> x \<and> 0 \<le> y) \<and>
   (\<exists>req0 d0 s0 d0'.
      valid_request req0 \<and>
      post_sales cashier 1000 io_ok req0 d0 = (Created s0, d0') \<and>
      subtotal s0 + tax s0 < discount s0 \<and> sale_total s0 < 0 \<and> s0 \<in> set (sales_json d0'))"
proof (intro conjI impI)
  assume a: "post_sales usr now io req d = (Created s, d')"
  show "discount s = (case req_discount req of None \<Rightarrow> 0 | Some x \<Rightarrow> x)"
    by (rule post_sales_Created_sale(2) [OF a])
  show "tax s = (case req_tax req of None \<Rightarrow> 0 | Some x \<Rightarrow> x)"
    by (rule post_sales_Created_sale(3) [OF a])
  show "sale_total s = subtotal s - discount s + tax s"
    by (rule post_sales_Created_sale(4) [OF a])
  show "s \<in> set (sales_json d')"
    by (simp add: post_sales_Created_sale(6) [OF a])
next
  show "valid_request (req\<lparr>req_discount := Some x, req_tax := Some y\<rparr>) \<longleftrightarrow>
      valid_request (req\<lparr>req_discount := None, req_tax := None\<rparr>) \<and> 0 \<le> x \<and> 0 \<le> y"
    by (auto simp: valid_request_def)
next
  let ?req = "mk_request [mk_line 1 1] (Some 100) (Some 0)"
  let ?d = "mk_disk [mk_product 1 ''Widget'' 10 5] []"
  let ?s = "\<lparr>sale_id = 1,
       sale_items =
         [\<lparr>item_productId = 1, item_productName = ''Widget'', item_sku = ''SKU'',
           item_price = 10, item_quantity = 1, item_total = 10\<rparr>],
       subtotal = 10, discount = 100, tax = 0, sale_total = - 90,
       paymentMethod = ''cash'', customerName = ''Walk-in Customer'',
       cashierId = 2, cashierName = ''cashier'', createdAt = 1000\<rparr>"
  let ?d' = "mk_disk [(mk_product 1 ''Widget'' 10 4)\<lparr>lastUpdated := 1000\<rparr>] [?s]"
  have v: "valid_request ?req" by (simp add: fixture_defs valid_request_def)
  have r: "post_sales cashier 1000 io_ok ?req ?d = (Created ?s, ?d')"
    by (simp add: fixture_defs handler_defs)
  have n1: "subtotal ?s + tax ?s < discount ?s" by simp
  have n2: "sale_total ?s < 0" by simp
  have n3: "?s \<in> set (sales_json ?d')" by (simp add: mk_disk_def)
  show "\<exists>req0 d0 s0 d0'.
      valid_request req0 \<and>
      post_sales cashier 1000 io_ok req0 d0 = (Created s0, d0') \<and>
      subtotal s0 + tax s0 < discount s0 \<and> sale_total s0 < 0 \<and> s0 \<in> set (sales_json d0')"
    by (intro exI conjI, rule v, rule r, rule n1, rule n2, rule n3)
qed

theorem C10_absolute_discount_negative_total_witness:
  "post_sales cashier 1000 io_ok (mk_request [mk_line 1 1] (Some 100) (Some 0))
     (mk_disk [mk_product 1 ''Widget'' 10 5] []) =
   (Created
      \<lparr>sale_id = 1,
       sale_items =
         [\<lparr>item_productId = 1, item_productName = ''Widget'', item_sku = ''SKU'',
           item_price = 10, item_quantity = 1, item_total = 10\<rparr>],
       subtotal = 10, discount = 100, tax = 0, sale_total = - 90,
       paymentMethod = ''cash'', customerName = ''Walk-in Customer'',
       cashierId = 2, cashierName = ''cashier'', createdAt = 1000\<rparr>,
    mk_disk [(mk_product 1 ''Widget'' 10 4)\<lparr>lastUpdated := 1000\<rparr>]
      [\<lparr>sale_id = 1,
        sale_items =
          [\<lparr>item_productId = 1, item_productName = ''Widget'', item_sku = ''SKU'',
            item_price = 10, item_quantity = 1, item_total = 10\<rparr>],
        subtotal = 10, discount = 100, tax = 0, sale_total = - 90,
        paymentMethod = ''cash'', customerName = ''Walk-in Customer'',
        cashierId = 2, cashierName = ''cashier'', createdAt = 1000\<rparr>]) \<and>
   (- 90 :: rat) = 10 - 100 + 0"
proof -
  let ?req = "mk_request [mk_line 1 1] (Some 100) (Some 0)"
  let ?d = "mk_disk [mk_product 1 ''Widget'' 10 5] []"
  let ?s = "\<lparr>sale_id = 1,
       sale_items =
         [\<lparr>item_productId = 1, item_productName = ''Widget'', item_sku = ''SKU'',
           item_price = 10, item_quantity = 1, item_total = 10\<rparr>],
       subtotal = 10, discount = 100, tax = 0, sale_total = - 90,
       paymentMethod = ''cash'', customerName = ''Walk-in Customer'',
       cashierId = 2, cashierName = ''cashier'', createdAt = 1000\<rparr>"
  let ?d' = "mk_disk [(mk_product 1 ''Widget'' 10 4)\<lparr>lastUpdated := 1000\<rparr>] [?s]"
  have run: "post_sales cashier 1000 io_ok ?req ?d = (Created ?s, ?d')"
    by (simp add: fixture_defs handler_defs)
  have "post_sales cashier 1000 io_ok ?req ?d = (Created ?s, ?d') \<longrightarrow>
      discount ?s = (case req_discount ?req of None \<Rightarrow> 0 | Some x \<Rightarrow> x) \<and>
      tax ?s = (case req_tax ?req of None \<Rightarrow> 0 | Some x \<Rightarrow> x) \<and>
      sale_total ?s = subtotal ?s - discount ?s + tax ?s \<and>
      ?s \<in> set (sales_json ?d')"
    by (rule conjunct1 [OF C10_absolute_discount_negative_total])
  with run have "sale_total ?s = subtotal ?s - discount ?s + tax ?s"
    by (elim impE conjE)
  then have ar: "(- 90 :: rat) = 10 - 100 + 0" by simp
  show ?thesis by (rule conjI [OF run ar])
qed

end
